theory Spec2Isabelle
  imports Main "HOL-Library.Word" "HOL-Library.AList" "HOL-Library.Sublist"
begin

unbundle bit_operations_syntax

section \<open>Data model of the cache package\<close>

text \<open>
  Byte buffers (\<^verbatim>\<open>[]byte\<close>) are lists of 8-bit words. Go strings are byte sequences
  too; they are modelled as \<^typ>\<open>string\<close> so that keys, header names and encoding tokens
  can be written as literals. A cache key is used both as \<^verbatim>\<open>[]byte\<close> (store key) and as
  \<^verbatim>\<open>string\<close> (status-table key, through \<^verbatim>\<open>byteSliceToString\<close>); both views are the same
  byte sequence, so one type serves for both.
\<close>

type_synonym byte = "8 word"
type_synonym bytes = "byte list"
type_synonym uint16 = "16 word"
type_synonym uint32 = "32 word"

text \<open>Go errors. Errors produced by libraries outside the repository are opaque.\<close>

datatype error = ErrBodyCotentNotFound | ExternalError string

text \<open>A Go call either panics or returns.\<close>

datatype 'a go = Panic | Return 'a

text \<open>The request status is a plain \<^verbatim>\<open>int\<close> in the source, with five named constants
  (\<^verbatim>\<open>iota + 1\<close>).\<close>

definition Pass :: int where "Pass = 1"
definition Fetching :: int where "Fetching = 2"
definition Waiting :: int where "Waiting = 3"
definition HitForPass :: int where "HitForPass = 4"
definition Cacheable :: int where "Cacheable = 5"

definition CompressMinLength :: int where "CompressMinLength = 1024"
definition GzipEncoding :: string where "GzipEncoding = ''gzip''"
definition BrEncoding :: string where "BrEncoding = ''br''"

text \<open>Channels (\<^verbatim>\<open>chan int\<close>) are heap objects; a channel is identified by the
  serial number of the \<^verbatim>\<open>make\<close> that allocated it. Operations on channels are recorded
  as events.\<close>

type_synonym chan = nat

datatype chanEvent = Send chan int | Close chan

record RequestStatus =
  createdAt :: uint32
  ttl :: uint16
  status :: int
  waitingChans :: "chan list"

text \<open>The response record. The code looks at buffers and at the header only through
  their length and content, so a nil buffer and an empty one are the same list, and a nil
  header and an empty one the same map.\<close>

record Response =
  CreatedAt :: uint32
  StatusCode :: uint16
  TTL :: uint16
  Header :: "string \<rightharpoonup> string list"
  Body :: bytes
  GzipBody :: bytes
  BrBody :: bytes
  CompressLevel :: int
  CompressMinLength_of :: int

text \<open>
  The embedded key-value store (pogreb) is an external collaborator: an opaque byte map with
  Put, Get and Delete. Its operations can fail with an I/O error; \<open>fault\<close> holds the error
  the store currently answers with, if any. A failing operation leaves the map unchanged.
  Get of a key that is not stored returns a nil value and no error.
\<close>

record pogreb =
  kv :: "string \<rightharpoonup> bytes"
  fault :: "error option"

definition db_Put :: "pogreb \<Rightarrow> string \<Rightarrow> bytes \<Rightarrow> error option \<times> pogreb" where
  "db_Put d k v = (case fault d of
       Some e \<Rightarrow> (Some e, d)
     | None \<Rightarrow> (None, d\<lparr>kv := (kv d)(k \<mapsto> v)\<rparr>))"

definition db_Get :: "pogreb \<Rightarrow> string \<Rightarrow> bytes option \<times> error option" where
  "db_Get d k = (case fault d of
       Some e \<Rightarrow> (None, Some e)
     | None \<Rightarrow> (kv d k, None))"

definition db_Delete :: "pogreb \<Rightarrow> string \<Rightarrow> error option \<times> pogreb" where
  "db_Delete d k = (case fault d of
       Some e \<Rightarrow> (Some e, d)
     | None \<Rightarrow> (None, d\<lparr>kv := (kv d)(k := None)\<rparr>))"

text \<open>
  The client: the store handle and the status table \<^verbatim>\<open>rsMap\<close>. The Go map is an
  association list with pairwise distinct keys; the order of the list is the (arbitrary)
  iteration order of the map. The last two fields are not fields of the Go struct: they
  are the part of the Go heap the client's operations act on, namely the number of
  channels allocated so far and the trace of channel operations performed so far.
\<close>

record Client =
  db :: pogreb
  rsMap :: "(string \<times> RequestStatus) list"
  nextChan :: nat
  chanTrace :: "chanEvent list"

section \<open>Request-status coordinator\<close>

text \<open>\<^verbatim>\<open>isExpired\<close>: unsigned 32-bit arithmetic, the subtraction wraps.\<close>

definition isExpired :: "uint32 \<Rightarrow> RequestStatus \<Rightarrow> bool" where
  "isExpired now rs = (if ttl rs \<noteq> 0 \<and> now - createdAt rs > ucast (ttl rs) then True else False)"

text \<open>
  \<^verbatim>\<open>lockAndUpdateRsMap\<close>, executed under the exclusive lock. \<open>now\<close> is the reading of
  the clock (\<^verbatim>\<open>uint32(time.Now().Unix())\<close>); the readings taken within one call are the same
  second.
\<close>

definition lockAndUpdateRsMap :: "uint32 \<Rightarrow> string \<Rightarrow> Client \<Rightarrow> int \<times> chan option \<times> Client" where
  "lockAndUpdateRsMap now k c =
     (case map_of (rsMap c) k of
        None \<Rightarrow>
          (Fetching, None,
           c\<lparr>rsMap := AList.update k
                \<lparr>createdAt = now, ttl = 0, status = Fetching, waitingChans = []\<rparr> (rsMap c)\<rparr>)
      | Some rs \<Rightarrow>
          if ttl rs \<noteq> 0 \<and> now - createdAt rs > ucast (ttl rs) then
            (Fetching, None,
             c\<lparr>rsMap := AList.update k
                  \<lparr>createdAt = now, ttl = 0, status = Fetching, waitingChans = []\<rparr> (rsMap c)\<rparr>)
          else if status rs = Fetching then
            (let ch = nextChan c in
             (Waiting, Some ch,
              c\<lparr>rsMap := AList.update k (rs\<lparr>waitingChans := waitingChans rs @ [ch]\<rparr>) (rsMap c),
                nextChan := Suc (nextChan c)\<rparr>))
          else (status rs, None, c))"

text \<open>\<^verbatim>\<open>GetRequestStatus\<close>: the fast path under the shared lock, then the re-check under
  the exclusive lock.\<close>

definition GetRequestStatus :: "uint32 \<Rightarrow> string \<Rightarrow> Client \<Rightarrow> int \<times> chan option \<times> Client" where
  "GetRequestStatus now key c =
     (case map_of (rsMap c) key of
        None \<Rightarrow> lockAndUpdateRsMap now key c
      | Some rs \<Rightarrow>
          if ttl rs \<noteq> 0 \<and> now - createdAt rs > ucast (ttl rs) then lockAndUpdateRsMap now key c
          else if status rs = Fetching then lockAndUpdateRsMap now key c
          else (status rs, None, c))"

text \<open>\<^verbatim>\<open>UpdateRequestStatus\<close>: the loop over the waiters sends the status on each channel
  and closes it, one channel after the other.\<close>

fun notifyWaiters :: "int \<Rightarrow> chan list \<Rightarrow> chanEvent list \<Rightarrow> chanEvent list" where
  "notifyWaiters st [] tr = tr"
| "notifyWaiters st (ch # chs) tr = notifyWaiters st chs (tr @ [Send ch st, Close ch])"

definition UpdateRequestStatus :: "string \<Rightarrow> int \<Rightarrow> uint16 \<Rightarrow> Client \<Rightarrow> Client" where
  "UpdateRequestStatus key st t c =
     (case map_of (rsMap c) key of
        None \<Rightarrow> c
      | Some rs \<Rightarrow>
          c\<lparr>rsMap := AList.update key (rs\<lparr>status := st, ttl := t, waitingChans := []\<rparr>) (rsMap c),
            chanTrace := notifyWaiters st (waitingChans rs) (chanTrace c)\<rparr>)"

definition HitForPass_set :: "string \<Rightarrow> uint16 \<Rightarrow> Client \<Rightarrow> Client" where
  "HitForPass_set key t c = UpdateRequestStatus key HitForPass t c"

definition Cacheable_set :: "string \<Rightarrow> uint16 \<Rightarrow> Client \<Rightarrow> Client" where
  "Cacheable_set key t c = UpdateRequestStatus key Cacheable t c"

text \<open>\<^verbatim>\<open>Remove\<close>: deletes the status entry and the persisted record.\<close>

definition Remove :: "string \<Rightarrow> Client \<Rightarrow> error option \<times> Client" where
  "Remove key c =
     (let (err, d) = db_Delete (db c) key
      in (err, c\<lparr>rsMap := AList.delete key (rsMap c), db := d\<rparr>))"

text \<open>
  \<^verbatim>\<open>ClearExpired\<close>: \<open>delay\<close> is a Go \<^verbatim>\<open>int\<close>; \<^verbatim>\<open>uint32(delay)\<close> keeps its low 32 bits. The
  loop ranges over the entries of the map and deletes the current key from the map and
  from the store; the result of \<^verbatim>\<open>db.Delete\<close> is dropped.
\<close>

fun clearLoop :: "uint32 \<Rightarrow> uint32 \<Rightarrow> (string \<times> RequestStatus) list \<Rightarrow> Client \<Rightarrow> Client" where
  "clearLoop now d [] c = c"
| "clearLoop now d ((k, v) # es) c =
     clearLoop now d es
       (if ttl v \<noteq> 0 \<and> now - createdAt v > ucast (ttl v) + d
        then c\<lparr>rsMap := AList.delete k (rsMap c), db := snd (db_Delete (db c) k)\<rparr>
        else c)"

definition ClearExpired :: "uint32 \<Rightarrow> int \<Rightarrow> Client \<Rightarrow> Client" where
  "ClearExpired now delay c =
     (let delay = (if delay < 0 then 60 else delay)
      in clearLoop now (word_of_int delay) (rsMap c) c)"

section \<open>Codecs\<close>

text \<open>
  The compression libraries (\<^verbatim>\<open>compress/gzip\<close>, \<^verbatim>\<open>cbrotli\<close>) are outside the repository
  and are parameters of the model. A library call returns a Go pair (value, error).
  \<^item> \<open>gzipNewWriterLevel l\<close>: \<^verbatim>\<open>gzip.NewWriterLevel\<close> yields a writer for level \<open>l\<close>
    (otherwise it yields nil and an error);
  \<^item> \<open>gzipWrite l buf\<close>: the bytes in the buffer after \<^verbatim>\<open>Write(buf)\<close> and \<^verbatim>\<open>Close()\<close>
    on a writer of level \<open>l\<close>, and the error of \<^verbatim>\<open>Write\<close>;
  \<^item> \<open>gzipReadAll buf\<close>: \<^verbatim>\<open>gzip.NewReader\<close> followed by \<^verbatim>\<open>ioutil.ReadAll\<close>;
  \<^item> \<open>cbrotliEncode buf q\<close> and \<open>cbrotliDecode buf\<close>: \<^verbatim>\<open>cbrotli.Encode\<close> with quality
    \<open>q\<close> and \<^verbatim>\<open>cbrotli.Decode\<close>.
\<close>

record codecs =
  gzipNewWriterLevel :: "int \<Rightarrow> bool"
  gzipWrite :: "int \<Rightarrow> bytes \<Rightarrow> bytes \<times> error option"
  gzipReadAll :: "bytes \<Rightarrow> bytes \<times> error option"
  cbrotliEncode :: "bytes \<Rightarrow> int \<Rightarrow> bytes \<times> error option"
  cbrotliDecode :: "bytes \<Rightarrow> bytes \<times> error option"

text \<open>\<^verbatim>\<open>util.Gzip\<close>: the error of \<^verbatim>\<open>NewWriterLevel\<close> is dropped, so that \<^verbatim>\<open>Write\<close> on
  the nil writer panics. \<^verbatim>\<open>gzip.DefaultCompression\<close> is \<open>-1\<close>.\<close>

definition Gzip :: "codecs \<Rightarrow> bytes \<Rightarrow> int \<Rightarrow> (bytes \<times> error option) go" where
  "Gzip cd buf level =
     (let level = (if level \<le> 0 then - 1 else level)
      in if \<not> gzipNewWriterLevel cd level then Panic
         else (case gzipWrite cd level buf of
                 (out, Some e) \<Rightarrow> Return ([], Some e)
               | (out, None) \<Rightarrow> Return (out, None)))"

definition BrotliEncode :: "codecs \<Rightarrow> bytes \<Rightarrow> int \<Rightarrow> bytes \<times> error option" where
  "BrotliEncode cd buf quality = cbrotliEncode cd buf (if quality = 0 then 9 else quality)"

definition BrotliDecode :: "codecs \<Rightarrow> bytes \<Rightarrow> bytes \<times> error option" where
  "BrotliDecode cd buf = cbrotliDecode cd buf"

definition Gunzip :: "codecs \<Rightarrow> bytes \<Rightarrow> bytes \<times> error option" where
  "Gunzip cd buf = gzipReadAll cd buf"

section \<open>Response record: body negotiation\<close>

text \<open>\<^verbatim>\<open>strings.Contains\<close>.\<close>

fun Contains :: "string \<Rightarrow> string \<Rightarrow> bool" where
  "Contains [] sub = (sub = [])"
| "Contains (c # cs) sub = (prefix sub (c # cs) \<or> Contains cs sub)"

definition getRawBody :: "codecs \<Rightarrow> Response \<Rightarrow> bytes \<times> error option" where
  "getRawBody cd r =
     (if length (Body r) \<noteq> 0 then (Body r, None)
      else if length (GzipBody r) \<noteq> 0 then Gunzip cd (GzipBody r)
      else if length (BrBody r) \<noteq> 0 then BrotliDecode cd (BrBody r)
      else ([], Some ErrBodyCotentNotFound))"

text \<open>The loop of \<^verbatim>\<open>GetBody\<close> over the supported encodings. \<open>Return None\<close>: the loop
  ended without returning from the function.\<close>

fun GetBody_loop :: "codecs \<Rightarrow> Response \<Rightarrow> string \<Rightarrow> string list \<Rightarrow> (bytes \<times> string) option go" where
  "GetBody_loop cd r acceptEncoding [] = Return None"
| "GetBody_loop cd r acceptEncoding (enc # encs) =
     (if \<not> Contains acceptEncoding enc then GetBody_loop cd r acceptEncoding encs
      else if enc = BrEncoding then
        (if length (BrBody r) \<noteq> 0 then Return (Some (BrBody r, enc))
         else (case getRawBody cd r of
                 (raw, Some e) \<Rightarrow> GetBody_loop cd r acceptEncoding encs
               | (raw, None) \<Rightarrow>
                   (case BrotliEncode cd raw (CompressLevel r) of
                      (brBody, Some e) \<Rightarrow> GetBody_loop cd r acceptEncoding encs
                    | (brBody, None) \<Rightarrow> Return (Some (brBody, enc)))))
      else if enc = GzipEncoding then
        (if length (GzipBody r) \<noteq> 0 then Return (Some (GzipBody r, enc))
         else (case Gzip cd (Body r) (CompressLevel r) of
                 Panic \<Rightarrow> Panic
               | Return (gzipBody, Some e) \<Rightarrow> GetBody_loop cd r acceptEncoding encs
               | Return (gzipBody, None) \<Rightarrow> Return (Some (gzipBody, enc))))
      else GetBody_loop cd r acceptEncoding encs)"

text \<open>\<^verbatim>\<open>GetBody\<close>. \<^verbatim>\<open>http.StatusNoContent\<close> is 204.\<close>

definition GetBody :: "codecs \<Rightarrow> Response \<Rightarrow> string \<Rightarrow> (bytes \<times> string) go" where
  "GetBody cd r acceptEncoding =
     (if StatusCode r = 204 then Return ([], [])
      else
        let compressMinLength =
              (if CompressMinLength_of r = 0 then CompressMinLength else CompressMinLength_of r);
            rawBodySize = int (length (Body r))
        in if rawBodySize \<noteq> 0 \<and> rawBodySize < compressMinLength then Return (Body r, [])
           else (case GetBody_loop cd r acceptEncoding [BrEncoding, GzipEncoding] of
                   Panic \<Rightarrow> Panic
                 | Return (Some res) \<Rightarrow> Return res
                 | Return None \<Rightarrow>
                     if length (Body r) = 0 \<and> length (GzipBody r) \<noteq> 0
                     then Return (fst (Gunzip cd (GzipBody r)), [])
                     else Return (Body r, [])))"

section \<open>Persisted form of a response\<close>

text \<open>Little-endian conversions (\<^verbatim>\<open>binary.LittleEndian\<close>). Reading from a buffer that
  is too short panics.\<close>

definition uint16ToBytes :: "uint16 \<Rightarrow> bytes" where
  "uint16ToBytes v = [ucast v, ucast (drop_bit 8 v)]"

definition uint32ToBytes :: "uint32 \<Rightarrow> bytes" where
  "uint32ToBytes v = [ucast v, ucast (drop_bit 8 v), ucast (drop_bit 16 v), ucast (drop_bit 24 v)]"

fun bytesToUint16 :: "bytes \<Rightarrow> uint16 go" where
  "bytesToUint16 (b0 # b1 # bs) = Return (ucast b0 OR push_bit 8 (ucast b1))"
| "bytesToUint16 bs = Panic"

fun bytesToUint32 :: "bytes \<Rightarrow> uint32 go" where
  "bytesToUint32 (b0 # b1 # b2 # b3 # bs) =
     Return (ucast b0 OR push_bit 8 (ucast b1) OR push_bit 16 (ucast b2) OR push_bit 24 (ucast b3))"
| "bytesToUint32 bs = Panic"

text \<open>The slice expression \<^verbatim>\<open>data[lo:hi]\<close>; out-of-range bounds panic (the capacity of
  the buffer is taken to be its length).\<close>

definition slice :: "bytes \<Rightarrow> nat \<Rightarrow> nat \<Rightarrow> bytes go" where
  "slice data lo hi =
     (if lo \<le> hi \<and> hi \<le> length data then Return (take (hi - lo) (drop lo data)) else Panic)"

text \<open>Sequencing of calls that may panic.\<close>

fun go_bind :: "'a go \<Rightarrow> ('a \<Rightarrow> 'b go) \<Rightarrow> 'b go" where
  "go_bind Panic f = Panic"
| "go_bind (Return x) f = f x"

text \<open>
  The JSON library (jsoniter) is outside the repository and is a parameter of the model:
  \<open>jsonMarshal\<close> is \<^verbatim>\<open>json.Marshal\<close> on a header, \<open>jsonUnmarshal\<close> is \<^verbatim>\<open>json.Unmarshal\<close>
  into a freshly made, empty header.
\<close>

record jsonLib =
  jsonMarshal :: "(string \<rightharpoonup> string list) \<Rightarrow> bytes \<times> error option"
  jsonUnmarshal :: "bytes \<Rightarrow> (string \<rightharpoonup> string list) \<times> error option"

text \<open>\<^verbatim>\<open>SaveResponse\<close>. \<^verbatim>\<open>uint32(len(x))\<close> keeps the low 32 bits of the length.\<close>

definition SaveResponse :: "jsonLib \<Rightarrow> uint32 \<Rightarrow> string \<Rightarrow> Response \<Rightarrow> Client \<Rightarrow> error option \<times> Client" where
  "SaveResponse js now key resp c =
     (let createdAt_v = (if CreatedAt resp = 0 then now else CreatedAt resp)
      in case jsonMarshal js (Header resp) of
           (header, Some e) \<Rightarrow> (Some e, c)
         | (header, None) \<Rightarrow>
             (let body = Body resp;
                  gzipBody = GzipBody resp;
                  brBody = BrBody resp;
                  s = [uint32ToBytes createdAt_v,
                       uint16ToBytes (StatusCode resp),
                       uint16ToBytes (TTL resp),
                       uint32ToBytes (of_nat (length header)),
                       uint32ToBytes (of_nat (length body)),
                       uint32ToBytes (of_nat (length gzipBody)),
                       uint32ToBytes (of_nat (length brBody)),
                       header, body, gzipBody, brBody];
                  data = concat s;
                  (err, d) = db_Put (db c) key data
              in (err, c\<lparr>db := d\<rparr>)))"

text \<open>The zero value \<^verbatim>\<open>&Response{}\<close>.\<close>

definition emptyResponse :: Response where
  "emptyResponse = \<lparr>CreatedAt = 0, StatusCode = 0, TTL = 0, Header = Map.empty, Body = [],
     GzipBody = [], BrBody = [], CompressLevel = 0, CompressMinLength_of = 0\<rparr>"

text \<open>\<^verbatim>\<open>GetResponse\<close>: the parse of a non-empty value. \<open>offset\<close> is a \<^verbatim>\<open>uint32\<close>, its
  additions wrap.\<close>

definition parseLengths :: "bytes \<Rightarrow> (uint32 \<times> uint32 \<times> uint32 \<times> uint32) go" where
  "parseLengths data =
     go_bind (slice data 8 12) (\<lambda>b. go_bind (bytesToUint32 b) (\<lambda>headerLength.
     go_bind (slice data 12 16) (\<lambda>b. go_bind (bytesToUint32 b) (\<lambda>bodyLength.
     go_bind (slice data 16 20) (\<lambda>b. go_bind (bytesToUint32 b) (\<lambda>gzipLength.
     go_bind (slice data 20 24) (\<lambda>b. go_bind (bytesToUint32 b) (\<lambda>brLength.
     Return (headerLength, bodyLength, gzipLength, brLength)))))))))"

definition parseBodies ::
  "bytes \<Rightarrow> Response \<Rightarrow> uint32 \<Rightarrow> uint32 \<Rightarrow> uint32 \<Rightarrow> uint32 \<Rightarrow> (Response option \<times> error option) go" where
  "parseBodies data resp offset bodyLength gzipLength brLength =
     go_bind (slice data (unat offset) (unat (offset + bodyLength))) (\<lambda>body.
       (let resp = resp\<lparr>Body := body\<rparr>;
            offset = offset + bodyLength
        in go_bind (slice data (unat offset) (unat (offset + gzipLength))) (\<lambda>gz.
             (let resp = resp\<lparr>GzipBody := gz\<rparr>;
                  offset = offset + gzipLength
              in go_bind (slice data (unat offset) (unat (offset + brLength))) (\<lambda>br.
                   Return (Some (resp\<lparr>BrBody := br\<rparr>), None))))))"

definition parseResponse :: "jsonLib \<Rightarrow> bytes \<Rightarrow> (Response option \<times> error option) go" where
  "parseResponse js data =
     go_bind (slice data 0 4) (\<lambda>b. go_bind (bytesToUint32 b) (\<lambda>created.
     go_bind (slice data 4 6) (\<lambda>b. go_bind (bytesToUint16 b) (\<lambda>code.
     go_bind (slice data 6 8) (\<lambda>b. go_bind (bytesToUint16 b) (\<lambda>t.
     go_bind (parseLengths data) (\<lambda>(headerLength, bodyLength, gzipLength, brLength).
       (let resp = emptyResponse\<lparr>CreatedAt := created, StatusCode := code, TTL := t\<rparr>;
            offset = (24 :: uint32)
        in go_bind (slice data (unat offset) (unat (offset + headerLength))) (\<lambda>hbytes.
             (let (header, err) = jsonUnmarshal js hbytes;
                  offset = offset + headerLength
              in case err of
                   Some e \<Rightarrow> Return (Some resp, Some e)
                 | None \<Rightarrow>
                     parseBodies data (resp\<lparr>Header := header\<rparr>) offset
                       bodyLength gzipLength brLength))))))))))"

definition GetResponse :: "jsonLib \<Rightarrow> string \<Rightarrow> Client \<Rightarrow> (Response option \<times> error option) go" where
  "GetResponse js key c =
     (case db_Get (db c) key of
        (data, Some e) \<Rightarrow> Return (None, Some e)
      | (None, None) \<Rightarrow> Return (None, None)
      | (Some data, None) \<Rightarrow>
          if length data = 0 then Return (None, None) else parseResponse js data)"

section \<open>Dispatcher: the store procedure\<close>

text \<open>
  \<^verbatim>\<open>save\<close> of the dispatcher. The record is passed by pointer and updated in place, so
  the model returns it with the client. \<open>hitForPassTTL\<close> is the package variable
  \<^verbatim>\<open>HitForPassTTL\<close> of the middleware package, whose declaration is outside the given
  sources; it is a parameter. The error returned by \<^verbatim>\<open>SaveResponse\<close> is dropped by
  \<^verbatim>\<open>doSave\<close>.
\<close>

definition doSave :: "jsonLib \<Rightarrow> uint32 \<Rightarrow> string \<Rightarrow> Response \<Rightarrow> Client \<Rightarrow> Client" where
  "doSave js now identity resp client =
     Cacheable_set identity (TTL resp) (snd (SaveResponse js now identity resp client))"

definition save_compress ::
  "codecs \<Rightarrow> jsonLib \<Rightarrow> uint32 \<Rightarrow> Client \<Rightarrow> string \<Rightarrow> Response \<Rightarrow> bytes \<Rightarrow> (Client \<times> Response) go" where
  "save_compress cd js now client identity resp body =
     go_bind
       (if length (GzipBody resp) = 0 then
          (case Gzip cd body (CompressLevel resp) of
             Panic \<Rightarrow> Panic
           | Return (gzipBody, err) \<Rightarrow>
               Return (if length gzipBody \<noteq> 0 then resp\<lparr>GzipBody := gzipBody, Body := []\<rparr> else resp))
        else Return resp)
       (\<lambda>resp.
          (let resp = (if length (BrBody resp) = 0
                       then resp\<lparr>BrBody := fst (BrotliEncode cd body (CompressLevel resp))\<rparr>
                       else resp)
           in Return (doSave js now identity resp client, resp)))"

definition save ::
  "codecs \<Rightarrow> jsonLib \<Rightarrow> uint16 \<Rightarrow> uint32 \<Rightarrow> Client \<Rightarrow> string \<Rightarrow> Response \<Rightarrow> bool \<Rightarrow> (Client \<times> Response) go" where
  "save cd js hitForPassTTL now client identity resp compressible =
     (let compressMinLength =
            (if CompressMinLength_of resp = 0 then CompressMinLength else CompressMinLength_of resp)
      in if StatusCode resp = 204 \<or> \<not> compressible
         then Return (doSave js now identity resp client, resp)
         else
           (case (if length (Body resp) = 0 then
                    (if length (GzipBody resp) \<noteq> 0 then
                       (case Gunzip cd (GzipBody resp) of
                          (unzipBody, Some e) \<Rightarrow> None
                        | (unzipBody, None) \<Rightarrow> Some unzipBody)
                     else if length (BrBody resp) \<noteq> 0 then
                       (case BrotliDecode cd (BrBody resp) of
                          (unzipBody, Some e) \<Rightarrow> None
                        | (unzipBody, None) \<Rightarrow> Some unzipBody)
                     else Some (Body resp))
                  else Some (Body resp)) of
              None \<Rightarrow> Return (doSave js now identity resp client, resp)
            | Some body \<Rightarrow>
                (let bodyLength = int (length body)
                 in if bodyLength = 0
                    then Return (HitForPass_set identity hitForPassTTL client, resp)
                    else if bodyLength < compressMinLength
                    then Return (doSave js now identity resp client, resp)
                    else save_compress cd js now client identity resp body)))"

section \<open>Director\<close>

record Director =
  Name :: string
  Policy :: string
  Ping :: string
  Backends :: "string list"
  AvailableBackends :: "string list"
  Hosts :: "string list"
  Prefixs :: "string list"
  Rewrites :: "string list"
  Priority :: int

text \<open>
  The regular-expression library (\<^verbatim>\<open>regexp\<close>) is outside the repository and is a parameter
  of the model: \<open>re p\<close> is \<open>None\<close> when \<^verbatim>\<open>regexp.MustCompile(p)\<close> panics, and otherwise
  \<open>Some m\<close> where \<open>m s\<close> is the result of \<^verbatim>\<open>Match([]byte(s))\<close> on the compiled expression.
\<close>

type_synonym regexpLib = "string \<Rightarrow> (string \<Rightarrow> bool) option"

text \<open>The loop over the host patterns; \<open>m\<close> is the variable \<^verbatim>\<open>match\<close>.\<close>

fun matchHosts :: "regexpLib \<Rightarrow> string \<Rightarrow> bool \<Rightarrow> string list \<Rightarrow> bool go" where
  "matchHosts re host m [] = Return m"
| "matchHosts re host m (item # items) =
     (if m then Return m
      else (case re item of
              None \<Rightarrow> Panic
            | Some reg \<Rightarrow> matchHosts re host (if reg host then True else m) items))"

text \<open>The loop over the prefixes; \<^verbatim>\<open>strings.HasPrefix(uri, item)\<close> is \<open>prefix item uri\<close>.\<close>

fun matchPrefixs :: "string \<Rightarrow> bool \<Rightarrow> string list \<Rightarrow> bool" where
  "matchPrefixs uri m [] = m"
| "matchPrefixs uri m (item # items) =
     matchPrefixs uri (if \<not> m \<and> prefix item uri then True else m) items"

definition Match :: "regexpLib \<Rightarrow> Director \<Rightarrow> string \<Rightarrow> string \<Rightarrow> bool go" where
  "Match re d host uri =
     (let hosts = Hosts d; prefixs = Prefixs d
      in if length hosts = 0 \<and> length prefixs = 0 then Return True
         else go_bind (if length hosts \<noteq> 0 then matchHosts re host False hosts else Return False)
                (\<lambda>m. if length hosts \<noteq> 0 \<and> \<not> m then Return m
                     else if length prefixs \<noteq> 0 then Return (matchPrefixs uri False prefixs)
                     else Return m))"

text \<open>
  An instance of the library for patterns made of ASCII letters and digits only. Such a
  pattern has no metacharacter and denotes itself; \<^verbatim>\<open>Match\<close> reports whether the subject
  contains a match of the expression, that is, whether the pattern occurs in the subject.
  Other patterns are outside this instance.
\<close>

definition isAlnum :: "char \<Rightarrow> bool" where
  "isAlnum ch = (let n = of_char ch :: nat
                 in (48 \<le> n \<and> n \<le> 57) \<or> (65 \<le> n \<and> n \<le> 90) \<or> (97 \<le> n \<and> n \<le> 122))"

definition literalRegexp :: regexpLib where
  "literalRegexp p = (if list_all isAlnum p then Some (\<lambda>s. Contains s p) else None)"

section \<open>Invariants of the status table\<close>

text \<open>A Go map holds one entry per key.\<close>

definition distinctKeys :: "Client \<Rightarrow> bool" where
  "distinctKeys c = distinct (map fst (rsMap c))"

text \<open>Every channel held in the table has been allocated.\<close>

definition chansAllocated :: "Client \<Rightarrow> bool" where
  "chansAllocated c =
     list_all (\<lambda>(k, rs). list_all (\<lambda>ch. ch < nextChan c) (waitingChans rs)) (rsMap c)"

text \<open>\<^verbatim>\<open>Waiting\<close> is handed to callers only; no entry stores it.\<close>

definition noWaitingStored :: "Client \<Rightarrow> bool" where
  "noWaitingStored c = list_all (\<lambda>(k, rs). status rs \<noteq> Waiting) (rsMap c)"

section \<open>Example inputs\<close>

text \<open>A record with a two-byte raw body, and a client with one key being fetched (two
  requests waiting) and one cacheable key with a persisted value.\<close>

definition exResponse :: Response where
  "exResponse = \<lparr>CreatedAt = 1541000000, StatusCode = 200, TTL = 60, Header = Map.empty,
     Body = [104, 105], GzipBody = [], BrBody = [], CompressLevel = 0, CompressMinLength_of = 0\<rparr>"

definition exClient :: Client where
  "exClient = \<lparr>db = \<lparr>kv = [''GET h /b'' \<mapsto> [1, 2, 3]], fault = None\<rparr>,
     rsMap = [(''GET h /a'', \<lparr>createdAt = 100, ttl = 0, status = Fetching, waitingChans = [0, 1]\<rparr>),
              (''GET h /b'', \<lparr>createdAt = 100, ttl = 10, status = Cacheable, waitingChans = []\<rparr>)],
     nextChan = 2, chanTrace = []\<rparr>"

text \<open>The same client with a store whose operations fail.\<close>

definition exClientFaulty :: Client where
  "exClientFaulty = exClient\<lparr>db := (db exClient)\<lparr>fault := Some (ExternalError ''write failed'')\<rparr>\<rparr>"

text \<open>The JSON library on the empty header: it is written as \<^verbatim>\<open>{}\<close> and read back as
  the empty header.\<close>

definition emptyJson :: jsonLib where
  "emptyJson = \<lparr>jsonMarshal = (\<lambda>h. ([123, 125], None)), jsonUnmarshal = (\<lambda>b. (Map.empty, None))\<rparr>"

text \<open>Stand-in codecs for running examples: an encoder puts a marker in front of its
  input, the decoder takes it off and fails on anything else.\<close>

definition markerCodecs :: codecs where
  "markerCodecs = \<lparr>
     gzipNewWriterLevel = (\<lambda>l. - 2 \<le> l \<and> l \<le> 9),
     gzipWrite = (\<lambda>l buf. (31 # 139 # buf, None)),
     gzipReadAll = (\<lambda>buf. case buf of
                       b0 # b1 # rest \<Rightarrow> if b0 = 31 \<and> b1 = 139 then (rest, None)
                                        else ([], Some (ExternalError ''gzip: invalid header''))
                     | _ \<Rightarrow> ([], Some (ExternalError ''gzip: invalid header''))),
     cbrotliEncode = (\<lambda>buf q. (206 # buf, None)),
     cbrotliDecode = (\<lambda>buf. case buf of
                       b0 # rest \<Rightarrow> if b0 = 206 then (rest, None)
                                   else ([], Some (ExternalError ''cbrotli: decode failed''))
                     | _ \<Rightarrow> ([], Some (ExternalError ''cbrotli: decode failed'')))\<rparr>"

text \<open>A director that serves one host pattern.\<close>

definition exDirector :: Director where
  "exDirector = \<lparr>Name = ''site'', Policy = ''first'', Ping = ''/ping'', Backends = [''http://b:80''],
     AvailableBackends = [''http://b:80''], Hosts = [''abc''], Prefixs = [], Rewrites = [],
     Priority = 4\<rparr>"

section \<open>Auxiliary facts\<close>

lemma list_all_update:
  assumes "list_all P al" and "P (k, v)"
  shows "list_all P (AList.update k v al)"
  using assms by (induction al) auto

lemma map_of_list_all:
  assumes "list_all P al" and "map_of al k = Some v"
  shows "P (k, v)"
  using assms by (auto simp: list_all_iff dest: map_of_SomeD)

lemma GetRequestStatus_eq_lockAndUpdateRsMap:
  "GetRequestStatus now key c = lockAndUpdateRsMap now key c"
  by (simp add: GetRequestStatus_def lockAndUpdateRsMap_def split: option.splits)

lemma notifyWaiters_eq:
  "notifyWaiters st chs tr = tr @ concat (map (\<lambda>ch. [Send ch st, Close ch]) chs)"
  by (induction chs arbitrary: tr) simp_all

subsection \<open>The invariants are kept\<close>

lemma GetRequestStatus_distinctKeys:
  assumes "distinctKeys c"
  shows "distinctKeys (snd (snd (GetRequestStatus now key c)))"
  using assms
  by (auto simp: GetRequestStatus_eq_lockAndUpdateRsMap lockAndUpdateRsMap_def distinctKeys_def Let_def
        distinct_update split: option.splits)

lemma GetRequestStatus_noWaitingStored:
  assumes "noWaitingStored c"
  shows "noWaitingStored (snd (snd (GetRequestStatus now key c)))"
proof -
  have "status rs \<noteq> Waiting" if "map_of (rsMap c) key = Some rs" for rs
    using map_of_list_all [OF assms [unfolded noWaitingStored_def] that] by simp
  then show ?thesis
    using assms
    by (auto simp: GetRequestStatus_eq_lockAndUpdateRsMap lockAndUpdateRsMap_def noWaitingStored_def Let_def
          Fetching_def Waiting_def intro!: list_all_update split: option.splits)
qed

lemma chansAllocated_update:
  assumes "list_all (\<lambda>(k, rs). list_all (\<lambda>ch. ch < n) (waitingChans rs)) al"
      and "list_all (\<lambda>ch. ch < m) (waitingChans v)"
      and "n \<le> m"
  shows "list_all (\<lambda>(k, rs). list_all (\<lambda>ch. ch < m) (waitingChans rs)) (AList.update key v al)"
proof (rule list_all_update)
  show "list_all (\<lambda>(k, rs). list_all (\<lambda>ch. ch < m) (waitingChans rs)) al"
    using assms(1,3) by (fastforce simp: list_all_iff)
  show "(case (key, v) of (k, rs) \<Rightarrow> list_all (\<lambda>ch. ch < m) (waitingChans rs))"
    using assms(2) by simp
qed

lemma GetRequestStatus_chansAllocated:
  assumes "chansAllocated c"
  shows "chansAllocated (snd (snd (GetRequestStatus now key c)))"
proof -
  note al = assms [unfolded chansAllocated_def]
  have fresh: "list_all (\<lambda>(k, rs). list_all (\<lambda>ch. ch < nextChan c) (waitingChans rs))
      (AList.update key \<lparr>createdAt = now, ttl = 0, status = Fetching, waitingChans = []\<rparr> (rsMap c))"
    by (rule chansAllocated_update [OF al]) simp_all
  have wait: "list_all (\<lambda>(k, rs). list_all (\<lambda>ch. ch < Suc (nextChan c)) (waitingChans rs))
      (AList.update key (rs\<lparr>waitingChans := waitingChans rs @ [nextChan c]\<rparr>) (rsMap c))"
    if "map_of (rsMap c) key = Some rs" for rs
  proof (rule chansAllocated_update [OF al])
    have "list_all (\<lambda>ch. ch < nextChan c) (waitingChans rs)"
      using map_of_list_all [OF al that] by simp
    then show "list_all (\<lambda>ch. ch < Suc (nextChan c))
                 (waitingChans (rs\<lparr>waitingChans := waitingChans rs @ [nextChan c]\<rparr>))"
      by (auto simp: list_all_iff)
  qed simp
  show ?thesis
    using assms fresh wait
    by (simp add: GetRequestStatus_eq_lockAndUpdateRsMap lockAndUpdateRsMap_def chansAllocated_def Let_def
          split: option.splits)
qed

lemma UpdateRequestStatus_invariants:
  assumes "distinctKeys c" and "chansAllocated c" and "noWaitingStored c" and "st \<noteq> Waiting"
  shows "distinctKeys (UpdateRequestStatus key st t c)
       \<and> chansAllocated (UpdateRequestStatus key st t c)
       \<and> noWaitingStored (UpdateRequestStatus key st t c)"
  using assms
  by (auto simp: UpdateRequestStatus_def distinctKeys_def chansAllocated_def noWaitingStored_def
        distinct_update intro!: list_all_update split: option.splits)

lemma list_all_delete:
  assumes "list_all P al"
  shows "list_all P (AList.delete k al)"
  using assms by (induction al) auto

lemma Remove_invariants:
  assumes "distinctKeys c" and "chansAllocated c" and "noWaitingStored c"
  shows "distinctKeys (snd (Remove key c))
       \<and> chansAllocated (snd (Remove key c))
       \<and> noWaitingStored (snd (Remove key c))"
  using assms
  by (auto simp: Remove_def distinctKeys_def chansAllocated_def noWaitingStored_def
        distinct_delete intro!: list_all_delete split: prod.splits)

lemma clearLoop_invariants:
  assumes "distinctKeys c" and "chansAllocated c" and "noWaitingStored c"
  shows "distinctKeys (clearLoop now d es c)
       \<and> chansAllocated (clearLoop now d es c)
       \<and> noWaitingStored (clearLoop now d es c)"
  using assms
proof (induction es arbitrary: c)
  case Nil
  then show ?case by simp
next
  case (Cons e es)
  obtain k v where e: "e = (k, v)" by (cases e)
  let ?c = "c\<lparr>rsMap := AList.delete k (rsMap c), db := snd (db_Delete (db c) k)\<rparr>"
  have "distinctKeys ?c \<and> chansAllocated ?c \<and> noWaitingStored ?c"
    using Cons.prems
    by (auto simp: distinctKeys_def chansAllocated_def noWaitingStored_def distinct_delete
          intro!: list_all_delete)
  with Cons.prems Cons.IH [of ?c] Cons.IH [of c] show ?case
    by (simp add: e)
qed

lemma ClearExpired_invariants:
  assumes "distinctKeys c" and "chansAllocated c" and "noWaitingStored c"
  shows "distinctKeys (ClearExpired now delay c)
       \<and> chansAllocated (ClearExpired now delay c)
       \<and> noWaitingStored (ClearExpired now delay c)"
  using clearLoop_invariants [OF assms] by (simp add: ClearExpired_def Let_def)

subsection \<open>The brotli branch of \<^verbatim>\<open>GetBody\<close> decodes across buffers\<close>

lemma GetBody_br_cross_decodes:
  assumes "StatusCode r \<noteq> 204" and "Body r = []" and "BrBody r = []" and "GzipBody r \<noteq> []"
      and "Contains acceptEncoding BrEncoding"
      and "Gunzip cd (GzipBody r) = (raw, None)"
      and "BrotliEncode cd raw (CompressLevel r) = (out, None)"
  shows "GetBody cd r acceptEncoding = Return (out, BrEncoding)"
  using assms by (simp add: GetBody_def getRawBody_def)

subsection \<open>The sweep\<close>

lemma clearLoop_fields:
  "nextChan (clearLoop now d es c) = nextChan c
   \<and> chanTrace (clearLoop now d es c) = chanTrace c
   \<and> fault (db (clearLoop now d es c)) = fault (db c)"
  by (induction es arbitrary: c) (auto simp: db_Delete_def split: option.splits)

lemma clearLoop_rsMap:
  assumes "distinct (map fst es)"
  shows "map_of (rsMap (clearLoop now d es c)) k
           = (case map_of es k of
                None \<Rightarrow> map_of (rsMap c) k
              | Some v \<Rightarrow> if ttl v \<noteq> 0 \<and> now - createdAt v > ucast (ttl v) + d then None
                          else map_of (rsMap c) k)"
  using assms
proof (induction es arbitrary: c)
  case Nil
  then show ?case by simp
next
  case (Cons e es)
  obtain k' v where e: "e = (k', v)" by (cases e)
  from Cons.prems e have notin: "map_of es k' = None" and dist: "distinct (map fst es)"
    by (auto simp: map_of_eq_None_iff)
  show ?case
    using Cons.IH [OF dist] notin
    by (auto simp: e delete_conv' split: option.splits)
qed

lemma clearLoop_kv:
  assumes "distinct (map fst es)" and "fault (db c) = None"
  shows "kv (db (clearLoop now d es c)) k
           = (case map_of es k of
                None \<Rightarrow> kv (db c) k
              | Some v \<Rightarrow> if ttl v \<noteq> 0 \<and> now - createdAt v > ucast (ttl v) + d then None
                          else kv (db c) k)"
  using assms
proof (induction es arbitrary: c)
  case Nil
  then show ?case by simp
next
  case (Cons e es)
  obtain k' v where e: "e = (k', v)" by (cases e)
  from Cons.prems e have notin: "map_of es k' = None" and dist: "distinct (map fst es)"
    by (auto simp: map_of_eq_None_iff)
  show ?case
    using Cons.IH [OF dist] notin Cons.prems(2)
    by (auto simp: e db_Delete_def split: option.splits)
qed

text \<open>Without wrap-around (the entry was created in the past, the delay is non-negative
  and below \<open>2\<^sup>3\<^sup>2 - 2\<^sup>1\<^sup>6\<close>) the comparison of the sweep is the comparison of the integers.\<close>

lemma graceCondition_int:
  fixes now :: uint32 and t :: uint16
  assumes "c \<le> now" and "0 \<le> delay" and "delay < 2 ^ 32 - 2 ^ 16"
  shows "(now - c > ucast t + word_of_int delay)
           = (int (unat now) - int (unat c) > int (unat t) + delay)"
proof -
  have le: "unat c \<le> unat now"
    using assms(1) by (simp add: word_le_nat_alt)
  have 1: "unat (now - c) = unat now - unat c"
    using assms(1) by (simp add: unat_sub)
  have "word_of_int delay = (of_nat (nat delay) :: uint32)"
    using assms(2) by simp
  moreover have "nat delay < 2 ^ 32"
    using assms(2,3) by (simp add: nat_less_iff)
  ultimately have 2: "unat (word_of_int delay :: uint32) = nat delay"
    by (simp add: unat_of_nat)
  have t16: "unat t < 2 ^ 16"
    using unsigned_less [of t] by simp
  then have "take_bit 32 (unat t) = unat t"
    by (simp add: take_bit_nat_eq_self)
  then have 3: "unat (ucast t :: uint32) = unat t"
    by (simp add: unsigned_ucast_eq)
  have "unat t + nat delay < 2 ^ 32"
    using t16 assms(2,3) by (simp add: nat_less_iff)
  then have "unat (ucast t :: uint32) + unat (word_of_int delay :: uint32) < 2 ^ LENGTH(32)"
    by (simp only: 2 3) simp
  then have 4: "unat (ucast t + word_of_int delay :: uint32) = unat t + nat delay"
    by (metis "2" "3" unat_add_lem)
  have "(now - c > ucast t + word_of_int delay) = (unat t + nat delay < unat now - unat c)"
    by (simp only: word_less_nat_alt 1 4)
  also have "\<dots> = (int (unat now) - int (unat c) > int (unat t) + delay)"
    using le assms(2) by linarith
  finally show ?thesis .
qed

subsection \<open>The wire format\<close>

lemma bytesToUint32_uint32ToBytes: "bytesToUint32 (uint32ToBytes v) = Return v"
proof -
  have "(ucast (ucast v :: byte) :: uint32) OR push_bit 8 (ucast (ucast (drop_bit 8 v) :: byte))
          OR push_bit 16 (ucast (ucast (drop_bit 16 v) :: byte))
          OR push_bit 24 (ucast (ucast (drop_bit 24 v) :: byte)) = v"
  proof (rule bit_word_eqI)
    fix n assume "n < LENGTH(32)"
    then show "bit ((ucast (ucast v :: byte) :: uint32) OR push_bit 8 (ucast (ucast (drop_bit 8 v) :: byte))
          OR push_bit 16 (ucast (ucast (drop_bit 16 v) :: byte))
          OR push_bit 24 (ucast (ucast (drop_bit 24 v) :: byte))) n = bit v n"
      by (cases "n < 8"; cases "n < 16"; cases "n < 24") (auto simp: bit_simps)
  qed
  then show ?thesis by (simp add: uint32ToBytes_def)
qed

lemma bytesToUint16_uint16ToBytes: "bytesToUint16 (uint16ToBytes v) = Return v"
proof -
  have "(ucast (ucast v :: byte) :: uint16) OR push_bit 8 (ucast (ucast (drop_bit 8 v) :: byte)) = v"
  proof (rule bit_word_eqI)
    fix n assume "n < LENGTH(16)"
    then show "bit ((ucast (ucast v :: byte) :: uint16) OR push_bit 8 (ucast (ucast (drop_bit 8 v) :: byte))) n
                = bit v n"
      by (cases "n < 8") (auto simp: bit_simps)
  qed
  then show ?thesis by (simp add: uint16ToBytes_def)
qed

lemma slice_at:
  assumes "data = pre @ x @ post" "length pre = lo" "hi = lo + length x"
  shows "slice data lo hi = Return x"
  using assms by (simp add: slice_def)


lemma length_uint32ToBytes: "length (uint32ToBytes v) = 4"
  by (simp add: uint32ToBytes_def)

lemma length_uint16ToBytes: "length (uint16ToBytes v) = 2"
  by (simp add: uint16ToBytes_def)

lemma unat_offset:
  assumes "n < 2 ^ 32"
  shows "unat (of_nat n :: uint32) = n"
  using assms by (simp add: unat_of_nat)

lemma parseLengths_encoded:
  fixes a :: uint32 and s t :: uint16
  assumes "data = uint32ToBytes a @ uint16ToBytes s @ uint16ToBytes t @ uint32ToBytes hl
              @ uint32ToBytes bl @ uint32ToBytes gl @ uint32ToBytes brl @ rest"
  shows "parseLengths data = Return (hl, bl, gl, brl)"
proof -
  have s1: "slice data 8 12 = Return (uint32ToBytes hl)"
    by (rule slice_at [where pre = "uint32ToBytes a @ uint16ToBytes s @ uint16ToBytes t"
          and post = "uint32ToBytes bl @ uint32ToBytes gl @ uint32ToBytes brl @ rest"])
       (simp_all add: assms length_uint32ToBytes length_uint16ToBytes)
  have s2: "slice data 12 16 = Return (uint32ToBytes bl)"
    by (rule slice_at [where pre = "uint32ToBytes a @ uint16ToBytes s @ uint16ToBytes t @ uint32ToBytes hl"
          and post = "uint32ToBytes gl @ uint32ToBytes brl @ rest"])
       (simp_all add: assms length_uint32ToBytes length_uint16ToBytes)
  have s3: "slice data 16 20 = Return (uint32ToBytes gl)"
    by (rule slice_at [where pre = "uint32ToBytes a @ uint16ToBytes s @ uint16ToBytes t @ uint32ToBytes hl
             @ uint32ToBytes bl"
          and post = "uint32ToBytes brl @ rest"])
       (simp_all add: assms length_uint32ToBytes length_uint16ToBytes)
  have s4: "slice data 20 24 = Return (uint32ToBytes brl)"
    by (rule slice_at [where pre = "uint32ToBytes a @ uint16ToBytes s @ uint16ToBytes t @ uint32ToBytes hl
             @ uint32ToBytes bl @ uint32ToBytes gl"
          and post = "rest"])
       (simp_all add: assms length_uint32ToBytes length_uint16ToBytes)
  show ?thesis
    by (simp add: parseLengths_def s1 s2 s3 s4 bytesToUint32_uint32ToBytes)
qed

lemma parseBodies_encoded:
  assumes data: "data = pre @ b @ g @ br"
      and pre: "length pre = n"
      and size: "n + length b + length g + length br < 2 ^ 32"
  shows "parseBodies data resp (of_nat n) (of_nat (length b)) (of_nat (length g)) (of_nat (length br))
           = Return (Some (resp\<lparr>Body := b, GzipBody := g, BrBody := br\<rparr>), None)"
proof -
  have o1: "(of_nat n :: uint32) + of_nat (length b) = of_nat (n + length b)" by simp
  have o2: "(of_nat (n + length b) :: uint32) + of_nat (length g) = of_nat (n + length b + length g)"
    by simp
  have o3: "(of_nat (n + length b + length g) :: uint32) + of_nat (length br)
              = of_nat (n + length b + length g + length br)"
    by simp
  have u0: "unat (of_nat n :: uint32) = n" using size by (intro unat_offset) simp
  have u1: "unat (of_nat (n + length b) :: uint32) = n + length b"
    using size by (intro unat_offset) simp
  have u2: "unat (of_nat (n + length b + length g) :: uint32) = n + length b + length g"
    using size by (intro unat_offset) simp
  have u3: "unat (of_nat (n + length b + length g + length br) :: uint32)
              = n + length b + length g + length br"
    using size by (intro unat_offset) simp
  have s1: "slice data n (n + length b) = Return b"
    by (rule slice_at [where pre = pre and post = "g @ br"]) (simp_all add: data pre)
  have s2: "slice data (n + length b) (n + length b + length g) = Return g"
    by (rule slice_at [where pre = "pre @ b" and post = br]) (simp_all add: data pre)
  have s3: "slice data (n + length b + length g) (n + length b + length g + length br) = Return br"
    by (rule slice_at [where pre = "pre @ b @ g" and post = "[]"]) (simp_all add: data pre)
  show ?thesis
    unfolding parseBodies_def Let_def o1 o2 o3 u0 u1 u2 u3 s1 s2 s3
    by simp
qed


lemma parseResponse_encoded:
  fixes a :: uint32 and sc t :: uint16
  assumes data: "data = uint32ToBytes a @ uint16ToBytes sc @ uint16ToBytes t
              @ uint32ToBytes (of_nat (length h)) @ uint32ToBytes (of_nat (length b))
              @ uint32ToBytes (of_nat (length g)) @ uint32ToBytes (of_nat (length br))
              @ h @ b @ g @ br"
      and size: "24 + length h + length b + length g + length br < 2 ^ 32"
      and json: "jsonUnmarshal js h = (hm, None)"
  shows "parseResponse js data
           = Return (Some \<lparr>CreatedAt = a, StatusCode = sc, TTL = t, Header = hm, Body = b,
                GzipBody = g, BrBody = br, CompressLevel = 0, CompressMinLength_of = 0\<rparr>, None)"
proof -
  let ?fixed = "uint32ToBytes a @ uint16ToBytes sc @ uint16ToBytes t
              @ uint32ToBytes (of_nat (length h)) @ uint32ToBytes (of_nat (length b))
              @ uint32ToBytes (of_nat (length g)) @ uint32ToBytes (of_nat (length br))"
  have lfixed: "length ?fixed = 24"
    by (simp add: length_uint32ToBytes length_uint16ToBytes)
  have s1: "slice data 0 4 = Return (uint32ToBytes a)"
    by (rule slice_at [where pre = "[]" and post = "uint16ToBytes sc @ uint16ToBytes t
              @ uint32ToBytes (of_nat (length h)) @ uint32ToBytes (of_nat (length b))
              @ uint32ToBytes (of_nat (length g)) @ uint32ToBytes (of_nat (length br))
              @ h @ b @ g @ br"])
       (simp_all add: data length_uint32ToBytes)
  have s2: "slice data 4 6 = Return (uint16ToBytes sc)"
    by (rule slice_at [where pre = "uint32ToBytes a" and post = "uint16ToBytes t
              @ uint32ToBytes (of_nat (length h)) @ uint32ToBytes (of_nat (length b))
              @ uint32ToBytes (of_nat (length g)) @ uint32ToBytes (of_nat (length br))
              @ h @ b @ g @ br"])
       (simp_all add: data length_uint32ToBytes length_uint16ToBytes)
  have s3: "slice data 6 8 = Return (uint16ToBytes t)"
    by (rule slice_at [where pre = "uint32ToBytes a @ uint16ToBytes sc" and post = "
              uint32ToBytes (of_nat (length h)) @ uint32ToBytes (of_nat (length b))
              @ uint32ToBytes (of_nat (length g)) @ uint32ToBytes (of_nat (length br))
              @ h @ b @ g @ br"])
       (simp_all add: data length_uint32ToBytes length_uint16ToBytes)
  have pl: "parseLengths data
              = Return (of_nat (length h), of_nat (length b), of_nat (length g), of_nat (length br))"
    by (rule parseLengths_encoded [where rest = "h @ b @ g @ br"]) (simp add: data)
  have oh: "(24 :: uint32) + of_nat (length h) = of_nat (24 + length h)" by simp
  have "unat (of_nat (24 + length h) :: uint32) = 24 + length h"
    using size by (intro unat_offset) simp
  then have uh: "unat ((24 :: uint32) + of_nat (length h)) = 24 + length h"
    by (simp only: oh)
  have sh: "slice data 24 (24 + length h) = Return h"
    by (rule slice_at [where pre = ?fixed and post = "b @ g @ br"])
       (simp_all add: data length_uint32ToBytes length_uint16ToBytes)
  have "parseBodies data resp (of_nat (24 + length h)) (of_nat (length b)) (of_nat (length g))
              (of_nat (length br))
            = Return (Some (resp\<lparr>Body := b, GzipBody := g, BrBody := br\<rparr>), None)" for resp
    by (rule parseBodies_encoded [where pre = "?fixed @ h"])
       (use size in \<open>simp_all add: data length_uint32ToBytes length_uint16ToBytes\<close>)
  then have pb: "parseBodies data resp (24 + of_nat (length h)) (of_nat (length b)) (of_nat (length g))
              (of_nat (length br))
            = Return (Some (resp\<lparr>Body := b, GzipBody := g, BrBody := br\<rparr>), None)" for resp
    by (simp only: oh)
  show ?thesis
    unfolding parseResponse_def Let_def s1 s2 s3 pl
    by (simp add: bytesToUint32_uint32ToBytes bytesToUint16_uint16ToBytes uh sh json pb
          emptyResponse_def)
qed

subsection \<open>The loops of \<^verbatim>\<open>Match\<close>\<close>

lemma matchHosts_compiled:
  assumes "\<forall>p\<in>set hosts. re p \<noteq> None"
  shows "matchHosts re host m hosts = Return (m \<or> (\<exists>p\<in>set hosts. \<exists>reg. re p = Some reg \<and> reg host))"
  using assms
  by (induction hosts arbitrary: m) (auto split: option.splits)

lemma matchPrefixs_eq:
  "matchPrefixs uri m ps = (m \<or> (\<exists>p\<in>set ps. prefix p uri))"
  by (induction ps arbitrary: m) auto

section \<open>Request-status coordinator: the contracts\<close>

text \<open>
  Claim C1. \<^verbatim>\<open>GetRequestStatus\<close> follows the coordinator contract. With \<open>(st, ch, c')\<close>
  the returned status, the returned channel and the client after the call:
  \<^item> if the key has no entry, or its entry is expired (\<open>ttl \<noteq> 0\<close> and \<open>now - createdAt > ttl\<close>
    in unsigned 32-bit arithmetic), the caller establishes the entry: afterwards the key
    holds an entry in \<^verbatim>\<open>Fetching\<close> state created at \<open>now\<close>, with no waiters, and the caller
    receives \<^verbatim>\<open>Fetching\<close> and no channel;
  \<^item> if the entry is present, not expired and \<^verbatim>\<open>Fetching\<close> (another caller established
    it), the caller receives \<^verbatim>\<open>Waiting\<close> and a channel that is allocated by this call
    (it is in no waiter list of the table before the call) and is appended to the
    entry's waiter list; the entry is otherwise as it was, still \<^verbatim>\<open>Fetching\<close>;
  \<^item> in every other case the stored status is returned with no channel and the client
    is unchanged.
  No other key, the store and the channel trace are not touched.
\<close>

theorem GetRequestStatus_contract:
  "(case GetRequestStatus now key c of (st, ch, c') \<Rightarrow>
      ((map_of (rsMap c) key = None \<or> (\<exists>rs. map_of (rsMap c) key = Some rs \<and> isExpired now rs))
         \<longrightarrow> st = Fetching \<and> ch = None
             \<and> map_of (rsMap c') key
                 = Some \<lparr>createdAt = now, ttl = 0, status = Fetching, waitingChans = []\<rparr>
             \<and> nextChan c' = nextChan c)
    \<and> (\<forall>rs. map_of (rsMap c) key = Some rs \<and> \<not> isExpired now rs \<and> status rs = Fetching
         \<longrightarrow> st = Waiting \<and> ch = Some (nextChan c)
             \<and> map_of (rsMap c') key = Some (rs\<lparr>waitingChans := waitingChans rs @ [nextChan c]\<rparr>)
             \<and> nextChan c' = Suc (nextChan c)
             \<and> (chansAllocated c \<longrightarrow>
                  (\<forall>k rs'. map_of (rsMap c) k = Some rs' \<longrightarrow> nextChan c \<notin> set (waitingChans rs'))))
    \<and> (\<forall>rs. map_of (rsMap c) key = Some rs \<and> \<not> isExpired now rs \<and> status rs \<noteq> Fetching
         \<longrightarrow> st = status rs \<and> ch = None \<and> c' = c)
    \<and> (\<forall>k. k \<noteq> key \<longrightarrow> map_of (rsMap c') k = map_of (rsMap c) k)
    \<and> db c' = db c \<and> chanTrace c' = chanTrace c)"
proof -
  have fresh: "nextChan c \<notin> set (waitingChans rs')"
    if "chansAllocated c" and "map_of (rsMap c) k = Some rs'" for k rs'
    using map_of_list_all [OF that(1) [unfolded chansAllocated_def] that(2)]
    by (auto simp: list_all_iff)
  show ?thesis
    using fresh
    by (auto simp: GetRequestStatus_def lockAndUpdateRsMap_def isExpired_def update_conv' Let_def
          split: option.splits if_splits)
qed

theorem GetRequestStatus_contract_witness:
  "GetRequestStatus 105 ''GET h /c'' exClient
     = (Fetching, None,
        exClient\<lparr>rsMap := rsMap exClient
           @ [(''GET h /c'', \<lparr>createdAt = 105, ttl = 0, status = Fetching, waitingChans = []\<rparr>)]\<rparr>)
   \<and> fst (GetRequestStatus 115 ''GET h /b'' exClient) = Fetching
   \<and> map_of (rsMap (snd (snd (GetRequestStatus 115 ''GET h /b'' exClient)))) ''GET h /b''
       = Some \<lparr>createdAt = 115, ttl = 0, status = Fetching, waitingChans = []\<rparr>
   \<and> fst (GetRequestStatus 105 ''GET h /a'' exClient) = Waiting
   \<and> fst (snd (GetRequestStatus 105 ''GET h /a'' exClient)) = Some 2
   \<and> map_of (rsMap (snd (snd (GetRequestStatus 105 ''GET h /a'' exClient)))) ''GET h /a''
       = Some \<lparr>createdAt = 100, ttl = 0, status = Fetching, waitingChans = [0, 1, 2]\<rparr>
   \<and> GetRequestStatus 105 ''GET h /b'' exClient = (Cacheable, None, exClient)"
  using GetRequestStatus_contract [where now = 105 and key = "''GET h /c''" and c = exClient]
        GetRequestStatus_contract [where now = 115 and key = "''GET h /b''" and c = exClient]
        GetRequestStatus_contract [where now = 105 and key = "''GET h /a''" and c = exClient]
        GetRequestStatus_contract [where now = 105 and key = "''GET h /b''" and c = exClient]
  by (simp add: GetRequestStatus_def lockAndUpdateRsMap_def exClient_def isExpired_def
        Fetching_def Cacheable_def Waiting_def chansAllocated_def)

text \<open>
  Claim C2. \<^verbatim>\<open>UpdateRequestStatus(key, newStatus, ttl)\<close> leaves the client as it is when
  the key has no entry. When the key has an entry, the entry gets the new status and the
  new ttl and keeps its \<open>createdAt\<close>; for each waiter, in the order of the waiter list, the
  new status is sent on its channel and the channel is closed; the waiter list is empty
  afterwards. No other key and nothing of the store is touched.
\<close>

theorem UpdateRequestStatus_contract:
  "(map_of (rsMap c) key = None \<longrightarrow> UpdateRequestStatus key st t c = c)
   \<and> (\<forall>rs. map_of (rsMap c) key = Some rs \<longrightarrow>
         map_of (rsMap (UpdateRequestStatus key st t c)) key
           = Some \<lparr>createdAt = createdAt rs, ttl = t, status = st, waitingChans = []\<rparr>
       \<and> chanTrace (UpdateRequestStatus key st t c)
           = chanTrace c @ concat (map (\<lambda>ch. [Send ch st, Close ch]) (waitingChans rs))
       \<and> (\<forall>k. k \<noteq> key \<longrightarrow> map_of (rsMap (UpdateRequestStatus key st t c)) k = map_of (rsMap c) k)
       \<and> db (UpdateRequestStatus key st t c) = db c
       \<and> nextChan (UpdateRequestStatus key st t c) = nextChan c)"
  by (auto simp: UpdateRequestStatus_def update_conv' notifyWaiters_eq)

theorem UpdateRequestStatus_contract_witness:
  "UpdateRequestStatus ''GET h /c'' HitForPass 300 exClient = exClient
   \<and> map_of (rsMap (UpdateRequestStatus ''GET h /a'' Cacheable 60 exClient)) ''GET h /a''
       = Some \<lparr>createdAt = 100, ttl = 60, status = Cacheable, waitingChans = []\<rparr>
   \<and> chanTrace (UpdateRequestStatus ''GET h /a'' Cacheable 60 exClient)
       = [Send 0 Cacheable, Close 0, Send 1 Cacheable, Close 1]"
  using UpdateRequestStatus_contract [where c = exClient and key = "''GET h /c''" and st = HitForPass and t = 300]
        UpdateRequestStatus_contract [where c = exClient and key = "''GET h /a''" and st = Cacheable and t = 60]
  by (simp add: exClient_def)

text \<open>
  Claim C9. On a status table that stores no \<^verbatim>\<open>Waiting\<close> entry for the key (the data
  model: \<^verbatim>\<open>Waiting\<close> is never stored), the channel returned by \<^verbatim>\<open>GetRequestStatus\<close> is
  non-nil exactly when the returned status is \<^verbatim>\<open>Waiting\<close>; a caller that receives
  \<^verbatim>\<open>Fetching\<close>, \<^verbatim>\<open>HitForPass\<close> or \<^verbatim>\<open>Cacheable\<close> receives no channel.
\<close>

theorem GetRequestStatus_chan_iff_Waiting:
  assumes "\<forall>rs. map_of (rsMap c) key = Some rs \<longrightarrow> status rs \<noteq> Waiting"
  shows "(case GetRequestStatus now key c of (st, ch, c') \<Rightarrow>
           (ch \<noteq> None \<longleftrightarrow> st = Waiting)
         \<and> (st = Fetching \<or> st = HitForPass \<or> st = Cacheable \<longrightarrow> ch = None))"
  using assms
  by (auto simp: GetRequestStatus_def lockAndUpdateRsMap_def Let_def Fetching_def Waiting_def
        HitForPass_def Cacheable_def split: option.splits if_splits)

theorem GetRequestStatus_chan_iff_Waiting_witness:
  "noWaitingStored exClient
   \<and> GetRequestStatus 105 ''GET h /b'' exClient = (Cacheable, None, exClient)
   \<and> fst (GetRequestStatus 105 ''GET h /a'' exClient) = Waiting
   \<and> fst (snd (GetRequestStatus 105 ''GET h /a'' exClient)) \<noteq> None
   \<and> fst (GetRequestStatus 105 ''GET h /c'' exClient) = Fetching
   \<and> fst (snd (GetRequestStatus 105 ''GET h /c'' exClient)) = None"
  using GetRequestStatus_chan_iff_Waiting [where now = 105 and key = "''GET h /b''" and c = exClient]
        GetRequestStatus_chan_iff_Waiting [where now = 105 and key = "''GET h /a''" and c = exClient]
        GetRequestStatus_chan_iff_Waiting [where now = 105 and key = "''GET h /c''" and c = exClient]
  by (simp add: GetRequestStatus_def lockAndUpdateRsMap_def exClient_def noWaitingStored_def
        Fetching_def Cacheable_def Waiting_def HitForPass_def)

text \<open>
  Claim C6. \<^verbatim>\<open>ClearExpired(delay)\<close>, on a table with one entry per key and a store that
  answers: an entry is deleted, together with the persisted record of its key, exactly
  when its ttl is not 0 and \<open>now - createdAt\<close> exceeds \<open>ttl + delay\<close> (unsigned 32-bit
  arithmetic, as the fields are); every other entry and its record stay as they are, and
  so do the records of keys without an entry. A negative delay is replaced by 60.
\<close>

theorem ClearExpired_exact:
  assumes "distinctKeys c" and "fault (db c) = None"
  shows "(\<forall>k rs. map_of (rsMap c) k = Some rs \<longrightarrow>
            (if ttl rs \<noteq> 0
                \<and> now - createdAt rs > ucast (ttl rs) + word_of_int (if delay < 0 then 60 else delay)
             then map_of (rsMap (ClearExpired now delay c)) k = None
                \<and> kv (db (ClearExpired now delay c)) k = None
             else map_of (rsMap (ClearExpired now delay c)) k = Some rs
                \<and> kv (db (ClearExpired now delay c)) k = kv (db c) k))
       \<and> (\<forall>k. map_of (rsMap c) k = None \<longrightarrow>
            map_of (rsMap (ClearExpired now delay c)) k = None
          \<and> kv (db (ClearExpired now delay c)) k = kv (db c) k)
       \<and> (delay < 0 \<longrightarrow> ClearExpired now delay c = ClearExpired now 60 c)"
  using assms
  by (auto simp: ClearExpired_def Let_def clearLoop_rsMap clearLoop_kv distinctKeys_def)

theorem ClearExpired_exact_witness:
  "distinctKeys exClient \<and> fault (db exClient) = None
   \<and> map_of (rsMap (ClearExpired 171 60 exClient)) ''GET h /b'' = None
   \<and> kv (db (ClearExpired 171 60 exClient)) ''GET h /b'' = None
   \<and> map_of (rsMap (ClearExpired 171 60 exClient)) ''GET h /a''
       = Some \<lparr>createdAt = 100, ttl = 0, status = Fetching, waitingChans = [0, 1]\<rparr>
   \<and> map_of (rsMap (ClearExpired 170 60 exClient)) ''GET h /b''
       = Some \<lparr>createdAt = 100, ttl = 10, status = Cacheable, waitingChans = []\<rparr>
   \<and> kv (db (ClearExpired 170 60 exClient)) ''GET h /b'' = Some [1, 2, 3]
   \<and> ClearExpired 171 (- 5) exClient = ClearExpired 171 60 exClient"
proof -
  have d: "distinctKeys exClient" and f: "fault (db exClient) = None"
    by (simp_all add: exClient_def distinctKeys_def)
  have a: "map_of (rsMap exClient) ''GET h /a''
             = Some \<lparr>createdAt = 100, ttl = 0, status = Fetching, waitingChans = [0, 1]\<rparr>"
    and b: "map_of (rsMap exClient) ''GET h /b''
             = Some \<lparr>createdAt = 100, ttl = 10, status = Cacheable, waitingChans = []\<rparr>"
    and v: "kv (db exClient) ''GET h /b'' = Some [1, 2, 3]"
    by (simp_all add: exClient_def)
  note at171 = ClearExpired_exact [OF d f, where now = 171 and delay = 60, THEN conjunct1, rule_format]
  note at170 = ClearExpired_exact [OF d f, where now = 170 and delay = 60, THEN conjunct1, rule_format]
  note neg = ClearExpired_exact [OF d f, where now = 171 and delay = "- 5",
      THEN conjunct2, THEN conjunct2, rule_format]
  from at171 [OF b] at171 [OF a] at170 [OF b] neg d f v show ?thesis
    by simp
qed

section \<open>Persistence: the contracts\<close>

text \<open>What \<^verbatim>\<open>GetResponse\<close> reads after \<^verbatim>\<open>SaveResponse\<close>, for any \<open>createdAt\<close>: a
  \<open>createdAt\<close> of 0 is replaced by the time of the save.\<close>

lemma GetResponse_SaveResponse_general:
  assumes marshal: "jsonMarshal js (Header r) = (hdr, None)"
      and unmarshal: "jsonUnmarshal js hdr = (Header r, None)"
      and size: "24 + length hdr + length (Body r) + length (GzipBody r) + length (BrBody r) < 2 ^ 32"
      and store: "fault (db c) = None"
  shows "fst (SaveResponse js now key r c) = None
       \<and> GetResponse js key (snd (SaveResponse js now key r c))
           = Return (Some (r\<lparr>CreatedAt := (if CreatedAt r = 0 then now else CreatedAt r),
                              CompressLevel := 0, CompressMinLength_of := 0\<rparr>), None)"
proof -
  define created where "created = (if CreatedAt r = 0 then now else CreatedAt r)"
  define data where "data = uint32ToBytes created @ uint16ToBytes (StatusCode r)
              @ uint16ToBytes (TTL r)
              @ uint32ToBytes (of_nat (length hdr)) @ uint32ToBytes (of_nat (length (Body r)))
              @ uint32ToBytes (of_nat (length (GzipBody r))) @ uint32ToBytes (of_nat (length (BrBody r)))
              @ hdr @ Body r @ GzipBody r @ BrBody r"
  have saved: "SaveResponse js now key r c = (None, c\<lparr>db := (db c)\<lparr>kv := (kv (db c))(key \<mapsto> data)\<rparr>\<rparr>)"
    by (simp add: SaveResponse_def marshal db_Put_def store Let_def data_def created_def)
  have nonempty: "data \<noteq> []"
    by (simp add: data_def uint32ToBytes_def)
  have parsed: "parseResponse js data
           = Return (Some \<lparr>CreatedAt = created, StatusCode = StatusCode r, TTL = TTL r,
                Header = Header r, Body = Body r, GzipBody = GzipBody r, BrBody = BrBody r,
                CompressLevel = 0, CompressMinLength_of = 0\<rparr>, None)"
    by (rule parseResponse_encoded [OF data_def size unmarshal])
  have "GetResponse js key (c\<lparr>db := (db c)\<lparr>kv := (kv (db c))(key \<mapsto> data)\<rparr>\<rparr>)
          = parseResponse js data"
    using nonempty by (simp add: GetResponse_def db_Get_def store)
  with saved parsed show ?thesis by (simp add: created_def)
qed

text \<open>
  Claim C4. Round trip of the persisted form. For a record \<open>r\<close> that is well formed, that
  is: its header is one the JSON library writes and reads back unchanged, its
  \<open>createdAt\<close> is set (not 0), and its encoded size is below \<open>2\<^sup>3\<^sup>2\<close> bytes; and for a
  store that answers: \<^verbatim>\<open>SaveResponse\<close> succeeds, and \<^verbatim>\<open>GetResponse\<close> of the same key then
  returns a record with the same createdAt, statusCode, ttl, header, body, gzipBody and
  brBody (the two compression settings are not persisted and come back as 0).
\<close>

theorem GetResponse_SaveResponse_roundtrip:
  assumes marshal: "jsonMarshal js (Header r) = (hdr, None)"
      and unmarshal: "jsonUnmarshal js hdr = (Header r, None)"
      and created: "CreatedAt r \<noteq> 0"
      and size: "24 + length hdr + length (Body r) + length (GzipBody r) + length (BrBody r) < 2 ^ 32"
      and store: "fault (db c) = None"
  shows "fst (SaveResponse js now key r c) = None
       \<and> GetResponse js key (snd (SaveResponse js now key r c))
           = Return (Some (r\<lparr>CompressLevel := 0, CompressMinLength_of := 0\<rparr>), None)"
  using GetResponse_SaveResponse_general [OF marshal unmarshal size store, of now key] created
  by simp

theorem GetResponse_SaveResponse_roundtrip_witness:
  "jsonMarshal emptyJson (Header exResponse) = ([123, 125], None)
   \<and> jsonUnmarshal emptyJson [123, 125] = (Header exResponse, None)
   \<and> CreatedAt exResponse \<noteq> 0
   \<and> fault (db exClient) = None
   \<and> fst (SaveResponse emptyJson 1541000005 ''GET h /a'' exResponse exClient) = None
   \<and> GetResponse emptyJson ''GET h /a''
        (snd (SaveResponse emptyJson 1541000005 ''GET h /a'' exResponse exClient))
      = Return (Some exResponse, None)"
  using GetResponse_SaveResponse_roundtrip [where js = emptyJson and r = exResponse
          and hdr = "[123, 125]" and c = exClient and now = 1541000005 and key = "''GET h /a''"]
  by (simp add: emptyJson_def exResponse_def exClient_def)

text \<open>
  Claim C10. When the store answers and holds no value for the key, or a value of
  length 0, \<^verbatim>\<open>GetResponse\<close> returns a nil record and a nil error.
\<close>

theorem GetResponse_miss:
  assumes "fault (db c) = None"
      and "kv (db c) key = None \<or> kv (db c) key = Some []"
  shows "GetResponse js key c = Return (None, None)"
  using assms by (auto simp: GetResponse_def db_Get_def)

theorem GetResponse_miss_witness:
  "kv (db exClient) ''GET h /a'' = None
   \<and> GetResponse emptyJson ''GET h /a'' exClient = Return (None, None)
   \<and> GetResponse emptyJson ''GET h /b'' (exClient\<lparr>db := \<lparr>kv = [''GET h /b'' \<mapsto> []], fault = None\<rparr>\<rparr>)
       = Return (None, None)"
  using GetResponse_miss [where c = exClient and key = "''GET h /a''" and js = emptyJson]
        GetResponse_miss [where c = "exClient\<lparr>db := \<lparr>kv = [''GET h /b'' \<mapsto> []], fault = None\<rparr>\<rparr>"
          and key = "''GET h /b''" and js = emptyJson]
  by (simp add: exClient_def)

section \<open>Body negotiation and the store procedure\<close>

text \<open>
  Claim C8. For a record with status code 204, \<^verbatim>\<open>GetBody\<close> returns an empty body and an
  empty encoding whatever the accepted encodings are; and the store procedure \<^verbatim>\<open>save\<close>
  persists the record as it is: the record handed to \<^verbatim>\<open>SaveResponse\<close> is the unchanged
  record, no codec takes part, and the record is returned unchanged.
\<close>

theorem GetBody_204_and_save_204:
  "GetBody cd (r\<lparr>StatusCode := 204\<rparr>) acceptEncoding = Return ([], [])
   \<and> save cd js hitForPassTTL now client identity (r\<lparr>StatusCode := 204\<rparr>) compressible
       = Return (Cacheable_set identity (TTL r)
                   (snd (SaveResponse js now identity (r\<lparr>StatusCode := 204\<rparr>) client)),
                 r\<lparr>StatusCode := 204\<rparr>)"
  by (simp add: GetBody_def save_def doSave_def)

theorem GetBody_204_and_save_204_witness:
  "GetBody markerCodecs (exResponse\<lparr>StatusCode := 204\<rparr>) ''br, gzip'' = Return ([], [])
   \<and> (case save markerCodecs emptyJson 300 1541000005 exClient ''GET h /a''
              (exResponse\<lparr>StatusCode := 204\<rparr>) True of
         Panic \<Rightarrow> False
       | Return (c', r') \<Rightarrow>
           r' = exResponse\<lparr>StatusCode := 204\<rparr>
         \<and> GetResponse emptyJson ''GET h /a'' c' = Return (Some (exResponse\<lparr>StatusCode := 204\<rparr>), None))"
proof -
  have "GetResponse emptyJson ''GET h /a''
          (Cacheable_set ''GET h /a'' (TTL exResponse)
             (snd (SaveResponse emptyJson 1541000005 ''GET h /a'' (exResponse\<lparr>StatusCode := 204\<rparr>) exClient)))
        = parseResponse emptyJson
            (concat [uint32ToBytes 1541000000, uint16ToBytes 204, uint16ToBytes 60, uint32ToBytes 2,
               uint32ToBytes 2, uint32ToBytes 0, uint32ToBytes 0, [123, 125], [104, 105], [], []])"
    by (simp add: Cacheable_set_def UpdateRequestStatus_def SaveResponse_def GetResponse_def
          db_Put_def db_Get_def emptyJson_def exResponse_def exClient_def uint32ToBytes_def)
  also have "\<dots> = Return (Some (exResponse\<lparr>StatusCode := 204\<rparr>), None)"
    using parseResponse_encoded [where js = emptyJson and a = 1541000000 and sc = 204 and t = 60
        and h = "[123, 125]" and b = "[104, 105]" and g = "[]" and br = "[]" and hm = Map.empty,
        OF refl]
    by (simp add: emptyJson_def exResponse_def)
  finally show ?thesis
    using GetBody_204_and_save_204 [where cd = markerCodecs and r = exResponse
        and acceptEncoding = "''br, gzip''" and js = emptyJson and hitForPassTTL = 300
        and now = 1541000005 and client = exClient and identity = "''GET h /a''"
        and compressible = True]
    by simp
qed

text \<open>
  Claim C3, at the input where the code departs from it: a record with status 200 whose
  raw and gzip buffers are empty (only the brotli buffer may hold data), asked for
  \<^verbatim>\<open>gzip\<close> only. The gzip branch compresses \<^verbatim>\<open>r.Body\<close>, the empty raw buffer, and does
  not go through \<^verbatim>\<open>getRawBody\<close>: the answer is the gzip encoding of zero bytes, labelled
  \<^verbatim>\<open>gzip\<close>, and does not depend on the brotli buffer.
\<close>

theorem GetBody_gzip_of_br_only:
  "GetBody cd (r\<lparr>StatusCode := 200, Body := [], GzipBody := [], BrBody := b\<rparr>) ''gzip''
     = (case Gzip cd [] (CompressLevel r) of
          Panic \<Rightarrow> Panic
        | Return (gzipBody, None) \<Rightarrow> Return (gzipBody, ''gzip'')
        | Return (gzipBody, Some e) \<Rightarrow> Return ([], []))"
  by (simp add: GetBody_def BrEncoding_def GzipEncoding_def
        split: go.splits prod.splits option.splits)

theorem GetBody_gzip_of_br_only_witness:
  "GetBody markerCodecs (exResponse\<lparr>StatusCode := 200, Body := [], GzipBody := [],
       BrBody := [206, 104, 105]\<rparr>) ''gzip''
     = Return ([31, 139], ''gzip'')
   \<and> BrotliDecode markerCodecs [206, 104, 105] = ([104, 105], None)
   \<and> Gzip markerCodecs [104, 105] 0 = Return ([31, 139, 104, 105], None)"
  using GetBody_gzip_of_br_only [where cd = markerCodecs and r = exResponse
      and b = "[206, 104, 105]"]
  by (simp add: Gzip_def BrotliDecode_def markerCodecs_def exResponse_def)

text \<open>
  Claim C5, at the input where the code departs from it: the store fails on write and the
  record is stored without compression. \<^verbatim>\<open>SaveResponse\<close> returns an error, \<^verbatim>\<open>doSave\<close>
  drops it, and the status entry of the key becomes \<^verbatim>\<open>Cacheable\<close> with the ttl of the
  record; it does not become \<^verbatim>\<open>HitForPass\<close>.
\<close>

theorem save_store_failure_Cacheable:
  assumes "fault (db client) = Some e"
      and "map_of (rsMap client) identity = Some rs"
  shows "fst (SaveResponse js now identity resp client) \<noteq> None
       \<and> (case save cd js hitForPassTTL now client identity resp False of
            Panic \<Rightarrow> False
          | Return (c', r') \<Rightarrow>
              map_of (rsMap c') identity
                = Some \<lparr>createdAt = createdAt rs, ttl = TTL resp, status = Cacheable, waitingChans = []\<rparr>
            \<and> db c' = db client)"
  using assms
  by (auto simp: save_def doSave_def Cacheable_set_def UpdateRequestStatus_def SaveResponse_def
        db_Put_def Let_def update_conv' split: prod.splits option.splits)

theorem save_store_failure_Cacheable_witness:
  "fault (db exClientFaulty) = Some (ExternalError ''write failed'')
   \<and> fst (SaveResponse emptyJson 1541000005 ''GET h /a'' exResponse exClientFaulty)
       = Some (ExternalError ''write failed'')
   \<and> save markerCodecs emptyJson 300 1541000005 exClientFaulty ''GET h /a'' exResponse False
       = Return (exClientFaulty\<lparr>
           rsMap := [(''GET h /a'', \<lparr>createdAt = 100, ttl = 60, status = Cacheable, waitingChans = []\<rparr>),
                     (''GET h /b'', \<lparr>createdAt = 100, ttl = 10, status = Cacheable, waitingChans = []\<rparr>)],
           chanTrace := [Send 0 Cacheable, Close 0, Send 1 Cacheable, Close 1]\<rparr>, exResponse)"
  using save_store_failure_Cacheable [where client = exClientFaulty
      and e = "ExternalError ''write failed''" and identity = "''GET h /a''"
      and rs = "\<lparr>createdAt = 100, ttl = 0, status = Fetching, waitingChans = [0, 1]\<rparr>"
      and js = emptyJson and now = 1541000005 and resp = exResponse and cd = markerCodecs
      and hitForPassTTL = 300]
  by (simp add: save_def doSave_def Cacheable_set_def UpdateRequestStatus_def SaveResponse_def
        emptyJson_def exClientFaulty_def exClient_def exResponse_def db_Put_def)

section \<open>Director: matching\<close>

text \<open>
  Claim C7, as the code has it. When every configured host pattern compiles,
  \<^verbatim>\<open>Match\<close> returns true exactly when (no host pattern is configured, or the library's
  \<^verbatim>\<open>Match\<close> of some host pattern accepts the request host) and (no prefix is configured,
  or some prefix is a literal prefix of the request URI). In particular it returns true
  when neither is configured, and both filters must pass when both are configured. The
  host test is the library's \<^verbatim>\<open>Regexp.Match\<close>, which looks for a match anywhere in the
  host; it is not a match of the whole host.
\<close>

theorem Match_search_semantics:
  assumes "\<forall>p\<in>set (Hosts d). re p \<noteq> None"
  shows "Match re d host uri
           = Return ((Hosts d = [] \<or> (\<exists>p\<in>set (Hosts d). \<exists>reg. re p = Some reg \<and> reg host))
                   \<and> (Prefixs d = [] \<or> (\<exists>p\<in>set (Prefixs d). prefix p uri)))"
  using assms
  by (auto simp: Match_def Let_def matchHosts_compiled matchPrefixs_eq)

theorem Match_search_semantics_witness:
  "Match literalRegexp (exDirector\<lparr>Prefixs := [''/api'']\<rparr>) ''abc'' ''/api/users'' = Return True
   \<and> Match literalRegexp (exDirector\<lparr>Prefixs := [''/api'']\<rparr>) ''abc'' ''/other'' = Return False
   \<and> Match literalRegexp (exDirector\<lparr>Prefixs := [''/api'']\<rparr>) ''xyz'' ''/api/users'' = Return False
   \<and> Match literalRegexp (exDirector\<lparr>Hosts := []\<rparr>) ''xyz'' ''/other'' = Return True"
  using Match_search_semantics [where d = "exDirector\<lparr>Prefixs := [''/api'']\<rparr>"
          and re = literalRegexp and host = "''abc''" and uri = "''/api/users''"]
        Match_search_semantics [where d = "exDirector\<lparr>Prefixs := [''/api'']\<rparr>"
          and re = literalRegexp and host = "''abc''" and uri = "''/other''"]
        Match_search_semantics [where d = "exDirector\<lparr>Prefixs := [''/api'']\<rparr>"
          and re = literalRegexp and host = "''xyz''" and uri = "''/api/users''"]
        Match_search_semantics [where d = "exDirector\<lparr>Hosts := []\<rparr>"
          and re = literalRegexp and host = "''xyz''" and uri = "''/other''"]
  by (simp add: exDirector_def literalRegexp_def isAlnum_def)

text \<open>
  Claim C7 as it is worded asks that some host pattern match the whole Host header. The
  director configured with the single host pattern \<^verbatim>\<open>abc\<close> matches the host
  \<^verbatim>\<open>xabcx\<close>, which the pattern \<^verbatim>\<open>abc\<close> does not match as a whole (a pattern without
  metacharacters matches, as a whole, only the string equal to it).
\<close>

theorem Match_full_counterexample:
  "Match literalRegexp exDirector ''xabcx'' ''/'' = Return True \<and> ''xabcx'' \<noteq> ''abc''"
  by (simp add: Match_def exDirector_def literalRegexp_def isAlnum_def)

end
